theory Spec2Isabelle
  imports Complex_Main "HOL-Library.Word"
begin

section \<open>Data model of image\_processor.cpp\<close>

text \<open>
  \<^verbatim>\<open>struct Pixel { uint8_t r; uint8_t g; uint8_t b; }\<close>: three 8-bit unsigned channels.
  The default constructor \<^verbatim>\<open>Pixel()\<close> gives black.
\<close>

type_synonym uint8_t = "8 word"

record Pixel =
  r :: uint8_t
  g :: uint8_t
  b :: uint8_t

definition Pixel_default :: Pixel where
  "Pixel_default = \<lparr>r = 0, g = 0, b = 0\<rparr>"

text \<open>
  The three \<^verbatim>\<open>throw std::invalid_argument(...)\<close> statements of \<^verbatim>\<open>applyGaussianBlur\<close>
  carry the messages "Kernel size must be odd and >= 3", "Image dimensions must be
  positive" and "Image data cannot be empty"; they are the first three constructors.
  \<^verbatim>\<open>std::vector::operator[]\<close> does not check its index: a read outside the vector is
  undefined behaviour in C++, not an exception. The model makes it the value
  \<open>OutOfRange\<close>, so that a theorem saying the call returns a grid also says that no such
  read happened.
\<close>

datatype error = InvalidKernelSize | InvalidDimensions | EmptyImage | OutOfRange

section \<open>Numbers\<close>

text \<open>
  The C++ \<^verbatim>\<open>int\<close> parameters and counters are modelled by \<open>int\<close> and \<open>nat\<close>. Signed
  overflow is undefined in C++; every integer the function computes lies between
  \<open>- kernelSize\<close> and \<open>width + kernelSize\<close> (or \<open>height + kernelSize\<close>), so none occurs
  as long as these sums fit 32 bits (\<open>sample_coord_fits_int32\<close> below).

  \<^verbatim>\<open>double\<close> is modelled by \<open>real\<close>: sums, products and quotients are exact. The
  rounding of binary64 is not part of the model, and neither are NaN and the
  infinities (the kernel loop produces NaN only when \<^verbatim>\<open>2.0 * sigma * sigma\<close> is zero or
  \<open>sigma\<close> is NaN itself). One effect of the finite range is modelled, because it is
  reached with everyday arguments: \<^verbatim>\<open>std::exp\<close> returns \<open>0.0\<close> when the exact value is
  below half the least subnormal number, \<open>2 ^ -1075\<close>.
\<close>

definition std_exp :: "real \<Rightarrow> real" where
  "std_exp x = (if exp x < 1 / 2 ^ 1075 then 0 else exp x)"

text \<open>
  \<^verbatim>\<open>static_cast<uint8_t>(d)\<close> discards the fractional part (truncation toward zero).
  The conversion is only defined when the truncated value fits the type; the model
  wraps otherwise, and \<open>clamped_fits\<close> below shows that the program never gets there.
\<close>

definition static_cast_uint8 :: "real \<Rightarrow> uint8_t" where
  "static_cast_uint8 d = word_of_int (if 0 \<le> d then \<lfloor>d\<rfloor> else \<lceil>d\<rceil>)"

text \<open>\<^verbatim>\<open>static_cast<uint8_t>(std::max(0.0, std::min(255.0, v)))\<close>\<close>

definition clamp_channel :: "real \<Rightarrow> uint8_t" where
  "clamp_channel v = static_cast_uint8 (max 0 (min 255 v))"

section \<open>The Gaussian kernel\<close>

text \<open>
  \<^verbatim>\<open>std::exp(-(x * x) / (2.0 * sigma * sigma))\<close>: the body of the helper
  \<^verbatim>\<open>gaussianFunction\<close> and, literally the same expression, the weight computed in the
  kernel loop of \<^verbatim>\<open>applyGaussianBlur\<close>.
\<close>

definition gaussianFunction :: "real \<Rightarrow> real \<Rightarrow> real" where
  "gaussianFunction x sigma = std_exp ((- (x * x)) / (2 * sigma * sigma))"

text \<open>
  \<^verbatim>\<open>
  std::vector<double> kernel(kernelSize);
  double sum = 0.0;
  int center = kernelSize / 2;
  for (int i = 0; i < kernelSize; ++i) {
      double x = i - center;
      kernel[i] = std::exp(-(x * x) / (2.0 * sigma * sigma));
      sum += kernel[i];
  }
  for (double& value : kernel) { value /= sum; }
  \<close>
  The first loop is \<open>kernel_loop\<close>, with the pair of \<open>kernel\<close> and \<open>sum\<close> as its state.
\<close>

definition kernel_loop :: "int \<Rightarrow> real \<Rightarrow> real list \<times> real" where
  "kernel_loop kernelSize sigma =
     foldl (\<lambda>(kernel, sum) i.
              let x = real_of_int (int i - kernelSize div 2);
                  w = gaussianFunction x sigma
              in (kernel[i := w], sum + w))
           (replicate (nat kernelSize) 0, 0) [0..<nat kernelSize]"

definition generate_kernel :: "int \<Rightarrow> real \<Rightarrow> real list" where
  "generate_kernel kernelSize sigma =
     (\<lambda>(kernel, sum). map (\<lambda>value. value / sum) kernel) (kernel_loop kernelSize sigma)"

section \<open>The two convolution passes\<close>

text \<open>
  \<^verbatim>\<open>std::max(0, std::min(width - 1, x + k - center))\<close> in the horizontal pass and
  \<^verbatim>\<open>std::max(0, std::min(height - 1, y + k - center))\<close> in the vertical one.
\<close>

definition sample_coord :: "int \<Rightarrow> int \<Rightarrow> int \<Rightarrow> int \<Rightarrow> int" where
  "sample_coord axisLength pos k center = max 0 (min (axisLength - 1) (pos + k - center))"

text \<open>\<^verbatim>\<open>grid[y][x]\<close> as a read, with the indices the program computes (signed).\<close>

definition at2 :: "'a list list \<Rightarrow> int \<Rightarrow> int \<Rightarrow> 'a option" where
  "at2 grid y x =
     (if 0 \<le> y \<and> y < int (length grid) \<and> 0 \<le> x \<and> x < int (length (grid ! nat y))
      then Some (grid ! nat y ! nat x) else None)"

text \<open>
  The three accumulators \<^verbatim>\<open>double r = 0.0, g = 0.0, b = 0.0\<close> form one triple;
  \<open>accumulate\<close> is the body
  \<^verbatim>\<open>r += pixel.r * kernel[k]; g += pixel.g * kernel[k]; b += pixel.b * kernel[k];\<close>
\<close>

type_synonym rgb_sum = "real \<times> real \<times> real"

definition accumulate :: "rgb_sum \<Rightarrow> Pixel \<Rightarrow> real \<Rightarrow> rgb_sum" where
  "accumulate acc pixel w =
     (case acc of (ar, ag, ab) \<Rightarrow>
        (ar + real (unat (r pixel)) * w,
         ag + real (unat (g pixel)) * w,
         ab + real (unat (b pixel)) * w))"

text \<open>
  The loop \<^verbatim>\<open>for (int k = 0; k < kernelSize; ++k)\<close> of either pass; \<open>sample k\<close> is the
  pixel that tap \<open>k\<close> reads, \<open>None\<close> when the read is out of range.
\<close>

definition convolve_taps :: "real list \<Rightarrow> int \<Rightarrow> (nat \<Rightarrow> Pixel option) \<Rightarrow> rgb_sum option" where
  "convolve_taps kern kernelSize sample =
     foldl (\<lambda>acc k. case acc of
                       None \<Rightarrow> None
                     | Some a \<Rightarrow> (case sample k of
                                   None \<Rightarrow> None
                                 | Some pixel \<Rightarrow> Some (accumulate a pixel (kern ! k))))
           (Some (0, 0, 0)) [0..<nat kernelSize]"

text \<open>The three clamped stores that end the body of the pixel loop.\<close>

definition store_pixel :: "rgb_sum \<Rightarrow> Pixel" where
  "store_pixel acc =
     (case acc of (ar, ag, ab) \<Rightarrow>
        \<lparr>r = clamp_channel ar, g = clamp_channel ag, b = clamp_channel ab\<rparr>)"

text \<open>\<^verbatim>\<open>grid[y][x] = v\<close>\<close>

definition set2 :: "'a list list \<Rightarrow> nat \<Rightarrow> nat \<Rightarrow> 'a \<Rightarrow> 'a list list" where
  "set2 grid y x v = grid[y := (grid ! y)[x := v]]"

text \<open>
  The loop nest \<^verbatim>\<open>for (int y = 0; y < height; ++y) for (int x = 0; x < width; ++x)\<close>
  writing into a grid allocated as
  \<^verbatim>\<open>std::vector<std::vector<Pixel>>(height, std::vector<Pixel>(width))\<close>.
  \<open>taps y x\<close> is the accumulation for the pixel at row \<open>y\<close>, column \<open>x\<close>.
\<close>

definition convolve_pass ::
  "nat \<Rightarrow> nat \<Rightarrow> (nat \<Rightarrow> nat \<Rightarrow> rgb_sum option) \<Rightarrow> Pixel list list option" where
  "convolve_pass height width taps =
     foldl (\<lambda>st y.
              foldl (\<lambda>st x. case st of
                               None \<Rightarrow> None
                             | Some grid \<Rightarrow> (case taps y x of
                                              None \<Rightarrow> None
                                            | Some acc \<Rightarrow> Some (set2 grid y x (store_pixel acc))))
                    st [0..<width])
           (Some (replicate height (replicate width Pixel_default))) [0..<height]"

definition horizontal_taps ::
  "real list \<Rightarrow> Pixel list list \<Rightarrow> int \<Rightarrow> int \<Rightarrow> int \<Rightarrow> nat \<Rightarrow> nat \<Rightarrow> rgb_sum option" where
  "horizontal_taps kern imageData width kernelSize center y x =
     convolve_taps kern kernelSize
       (\<lambda>k. at2 imageData (int y) (sample_coord width (int x) (int k) center))"

definition vertical_taps ::
  "real list \<Rightarrow> Pixel list list \<Rightarrow> int \<Rightarrow> int \<Rightarrow> int \<Rightarrow> nat \<Rightarrow> nat \<Rightarrow> rgb_sum option" where
  "vertical_taps kern temp height kernelSize center y x =
     convolve_taps kern kernelSize
       (\<lambda>k. at2 temp (sample_coord height (int y) (int k) center) (int x))"

definition horizontal_pass ::
  "real list \<Rightarrow> Pixel list list \<Rightarrow> int \<Rightarrow> int \<Rightarrow> int \<Rightarrow> int \<Rightarrow> Pixel list list option" where
  "horizontal_pass kern imageData width height kernelSize center =
     convolve_pass (nat height) (nat width)
       (horizontal_taps kern imageData width kernelSize center)"

definition vertical_pass ::
  "real list \<Rightarrow> Pixel list list \<Rightarrow> int \<Rightarrow> int \<Rightarrow> int \<Rightarrow> int \<Rightarrow> Pixel list list option" where
  "vertical_pass kern temp width height kernelSize center =
     convolve_pass (nat height) (nat width)
       (vertical_taps kern temp height kernelSize center)"

section \<open>applyGaussianBlur\<close>

text \<open>
  \<^verbatim>\<open>kernelSize % 2\<close> is only evaluated when \<open>3 \<le> kernelSize\<close>, where the remainder of
  C++ and \<open>mod\<close> agree, as do \<^verbatim>\<open>kernelSize / 2\<close> and \<open>div\<close>.
\<close>

definition applyGaussianBlur ::
  "Pixel list list \<Rightarrow> int \<Rightarrow> int \<Rightarrow> int \<Rightarrow> real \<Rightarrow> error + Pixel list list" where
  "applyGaussianBlur imageData width height kernelSize sigma =
     (if kernelSize < 3 \<or> kernelSize mod 2 = 0 then Inl InvalidKernelSize
      else if width \<le> 0 \<or> height \<le> 0 then Inl InvalidDimensions
      else if imageData = [] \<or> hd imageData = [] then Inl EmptyImage
      else
        let kern = generate_kernel kernelSize sigma;
            center = kernelSize div 2
        in case horizontal_pass kern imageData width height kernelSize center of
             None \<Rightarrow> Inl OutOfRange
           | Some temp \<Rightarrow>
               (case vertical_pass kern temp width height kernelSize center of
                  None \<Rightarrow> Inl OutOfRange
                | Some result \<Rightarrow> Inr result))"

section \<open>Vocabulary of the statements\<close>


text \<open>The three accumulators after \<open>n\<close> taps that read the pixels \<open>px 0, px 1, \<dots>\<close>.\<close>

definition tap_sum :: "real list \<Rightarrow> nat \<Rightarrow> (nat \<Rightarrow> Pixel) \<Rightarrow> rgb_sum" where
  "tap_sum kern n px =
     (\<Sum>k<n. real (unat (r (px k))) * kern ! k,
      \<Sum>k<n. real (unat (g (px k))) * kern ! k,
      \<Sum>k<n. real (unat (b (px k))) * kern ! k)"

text \<open>Row \<open>y\<close> of a grid written by a pass none of whose reads is out of range.\<close>

definition pass_row :: "nat \<Rightarrow> (nat \<Rightarrow> nat \<Rightarrow> rgb_sum option) \<Rightarrow> nat \<Rightarrow> Pixel list" where
  "pass_row width taps y = map (\<lambda>x. store_pixel (the (taps y x))) [0..<width]"

text \<open>
  The accumulated sums of the horizontal and of the vertical pass at row \<open>y\<close>, column
  \<open>x\<close>, and the grids the two passes write, when every read is in range.
\<close>

definition h_value :: "real list \<Rightarrow> Pixel list list \<Rightarrow> int \<Rightarrow> int \<Rightarrow> nat \<Rightarrow> nat \<Rightarrow> rgb_sum" where
  "h_value kern imageData width kernelSize y x =
     tap_sum kern (nat kernelSize)
       (\<lambda>k. imageData ! y ! nat (sample_coord width (int x) (int k) (kernelSize div 2)))"

definition v_value :: "real list \<Rightarrow> Pixel list list \<Rightarrow> int \<Rightarrow> int \<Rightarrow> nat \<Rightarrow> nat \<Rightarrow> rgb_sum" where
  "v_value kern temp height kernelSize y x =
     tap_sum kern (nat kernelSize)
       (\<lambda>k. temp ! nat (sample_coord height (int y) (int k) (kernelSize div 2)) ! x)"

definition blur_temp :: "real list \<Rightarrow> Pixel list list \<Rightarrow> int \<Rightarrow> int \<Rightarrow> int \<Rightarrow> Pixel list list" where
  "blur_temp kern imageData width height kernelSize =
     map (\<lambda>y. map (\<lambda>x. store_pixel (h_value kern imageData width kernelSize y x)) [0..<nat width])
       [0..<nat height]"

definition blur_result :: "real list \<Rightarrow> Pixel list list \<Rightarrow> int \<Rightarrow> int \<Rightarrow> int \<Rightarrow> Pixel list list" where
  "blur_result kern temp width height kernelSize =
     map (\<lambda>y. map (\<lambda>x. store_pixel (v_value kern temp height kernelSize y x)) [0..<nat width])
       [0..<nat height]"

text \<open>The grid holds the region of \<open>height\<close> rows and \<open>width\<close> columns at its top left.\<close>

definition covers :: "'a list list \<Rightarrow> int \<Rightarrow> int \<Rightarrow> bool" where
  "covers grid width height \<longleftrightarrow>
     nat height \<le> length grid \<and>
     list_all (\<lambda>row. nat width \<le> length row) (take (nat height) grid)"




text \<open>
  A valid call (section 6 of the specification): an odd kernel size of at least 3,
  positive dimensions that are those of the grid, a positive \<open>sigma\<close>.
\<close>

definition valid_input :: "Pixel list list \<Rightarrow> int \<Rightarrow> int \<Rightarrow> int \<Rightarrow> real \<Rightarrow> bool" where
  "valid_input imageData width height kernelSize sigma \<longleftrightarrow>
     3 \<le> kernelSize \<and> odd kernelSize \<and> 0 < width \<and> 0 < height \<and>
     length imageData = nat height \<and> (\<forall>row \<in> set imageData. length row = nat width) \<and>
     0 < sigma"

text \<open>
  Clamping a coordinate to \<open>[0, axisLength - 1]\<close>, in the words of the specification:
  a coordinate before the first pixel becomes the first, one after the last becomes the last.
\<close>

definition clamp_to_axis :: "int \<Rightarrow> int \<Rightarrow> int" where
  "clamp_to_axis axisLength i =
     (if i < 0 then 0 else if axisLength - 1 < i then axisLength - 1 else i)"

text \<open>Small images for the concrete instances.\<close>

definition black_image :: "Pixel list list" where
  "black_image = [[Pixel_default, Pixel_default], [Pixel_default, Pixel_default]]"








section \<open>Validation\<close>

text \<open>
  Claim C2. When the kernel size is even or below 3, or the width or the height is not
  positive, or the grid has no rows or its first row has no columns, the call fails
  with the validation failure named after the first of these checks that fails, in
  the order in which the function makes them (kernel size, dimensions, emptiness).
  A failure is the left summand, so no grid, complete or partial, comes back.
  The failure is the same for every grid that is empty in the same way: it is decided
  before any pixel of the argument is looked at.
\<close>

theorem validation_failures:
  "(kernelSize < 3 \<or> even kernelSize \<longrightarrow>
      applyGaussianBlur imageData width height kernelSize sigma = Inl InvalidKernelSize)
   \<and> (\<not> (kernelSize < 3 \<or> even kernelSize) \<and> (width \<le> 0 \<or> height \<le> 0) \<longrightarrow>
      applyGaussianBlur imageData width height kernelSize sigma = Inl InvalidDimensions)
   \<and> (\<not> (kernelSize < 3 \<or> even kernelSize) \<and> \<not> (width \<le> 0 \<or> height \<le> 0)
        \<and> (imageData = [] \<or> hd imageData = []) \<longrightarrow>
      applyGaussianBlur imageData width height kernelSize sigma = Inl EmptyImage)
   \<and> (kernelSize < 3 \<or> even kernelSize \<or> width \<le> 0 \<or> height \<le> 0
        \<or> imageData = [] \<or> hd imageData = [] \<longrightarrow>
      (\<exists>e \<in> {InvalidKernelSize, InvalidDimensions, EmptyImage}.
         \<forall>other. (other = [] \<or> hd other = []) = (imageData = [] \<or> hd imageData = []) \<longrightarrow>
           applyGaussianBlur other width height kernelSize sigma = Inl e))"
  by (auto simp: applyGaussianBlur_def even_iff_mod_2_eq_zero)

theorem validation_failures_witness:
  "applyGaussianBlur [[Pixel_default]] 1 1 4 1 = Inl InvalidKernelSize
   \<and> applyGaussianBlur [[Pixel_default]] 0 1 3 1 = Inl InvalidDimensions
   \<and> applyGaussianBlur [[]] 1 1 3 1 = Inl EmptyImage
   \<and> (\<exists>e \<in> {InvalidKernelSize, InvalidDimensions, EmptyImage}.
         \<forall>other. (other = [] \<or> hd other = [])
                   = (([]::Pixel list list) = [] \<or> hd ([]::Pixel list list) = []) \<longrightarrow>
           applyGaussianBlur other 1 1 3 1 = Inl e)"
  using validation_failures [of 4 "[[Pixel_default]]" 1 1 1]
    validation_failures [of 3 "[[Pixel_default]]" 0 1 1]
    validation_failures [of 3 "[[]]" 1 1 1]
    validation_failures [of 3 "[]" 1 1 1]
  by simp

section \<open>Closed forms of the three loop nests\<close>

subsection \<open>Kernel loop\<close>




subsection \<open>Tap loop\<close>

lemma convolve_taps_aux:
  "foldl (\<lambda>acc k. case acc of None \<Rightarrow> None
                  | Some a \<Rightarrow> (case sample k of None \<Rightarrow> None
                               | Some pixel \<Rightarrow> Some (accumulate a pixel (kern ! k))))
      (Some (0, 0, 0)) [0..<n]
   = (if \<forall>k<n. sample k \<noteq> None then Some (tap_sum kern n (\<lambda>k. the (sample k))) else None)"
proof (induction n)
  case 0
  then show ?case by (simp add: tap_sum_def)
next
  case (Suc n)
  show ?case
  proof (cases "\<forall>k<n. sample k \<noteq> None")
    case True
    then show ?thesis using Suc
      by (cases "sample n") (auto simp: tap_sum_def accumulate_def less_Suc_eq)
  next
    case False
    then show ?thesis using Suc by (auto simp: less_Suc_eq)
  qed
qed

lemma convolve_taps_eq:
  "convolve_taps kern kernelSize sample =
     (if \<forall>k<nat kernelSize. sample k \<noteq> None
      then Some (tap_sum kern (nat kernelSize) (\<lambda>k. the (sample k))) else None)"
  unfolding convolve_taps_def by (rule convolve_taps_aux)

subsection \<open>Pixel loop nest\<close>

lemma pass_row_None:
  "foldl (\<lambda>st x. case st of None \<Rightarrow> None
                 | Some grid \<Rightarrow> (case t x of None \<Rightarrow> None
                                 | Some acc \<Rightarrow> Some (set2 grid y x (store_pixel acc))))
      None xs = None"
  by (induction xs) simp_all

lemma pass_row_aux:
  assumes "y < length grid" "m \<le> length (grid ! y)"
  shows "foldl (\<lambda>st x. case st of None \<Rightarrow> None
                 | Some grid \<Rightarrow> (case t x of None \<Rightarrow> None
                                 | Some acc \<Rightarrow> Some (set2 grid y x (store_pixel acc))))
      (Some grid) [0..<m]
   = (if \<forall>x<m. t x \<noteq> None
      then Some (grid[y := map (\<lambda>x. store_pixel (the (t x))) [0..<m] @ drop m (grid ! y)])
      else None)"
  using assms(2)
proof (induction m)
  case 0
  then show ?case by simp
next
  case (Suc m)
  then have m: "m < length (grid ! y)" by simp
  show ?case
  proof (cases "\<forall>x<m. t x \<noteq> None")
    case True
    show ?thesis
    proof (cases "t m")
      case None
      with True Suc show ?thesis by auto
    next
      case (Some acc)
      have "(map (\<lambda>x. store_pixel (the (t x))) [0..<m] @ drop m (grid ! y))[m := v]
          = map (\<lambda>x. store_pixel (the (t x))) [0..<m] @ v # drop (Suc m) (grid ! y)" for v
        using m by (simp add: list_update_append upd_conv_take_nth_drop)
      moreover have "(\<forall>x<Suc m. t x \<noteq> None)"
        using True Some by (metis less_Suc_eq option.distinct(1))
      ultimately show ?thesis
        using True Some Suc assms(1) by (simp add: set2_def)
    qed
  next
    case False
    with Suc show ?thesis by (auto simp: less_Suc_eq)
  qed
qed

lemma convolve_pass_aux:
  "m \<le> height \<Longrightarrow>
   foldl (\<lambda>st y.
              foldl (\<lambda>st x. case st of
                               None \<Rightarrow> None
                             | Some grid \<Rightarrow> (case taps y x of
                                              None \<Rightarrow> None
                                            | Some acc \<Rightarrow> Some (set2 grid y x (store_pixel acc))))
                    st [0..<width])
           (Some (replicate height (replicate width Pixel_default))) [0..<m]
   = (if \<forall>y<m. \<forall>x<width. taps y x \<noteq> None
      then Some (map (pass_row width taps) [0..<m]
                 @ replicate (height - m) (replicate width Pixel_default))
      else None)"
proof (induction m)
  case 0
  then show ?case by simp
next
  case (Suc m)
  then have m: "m < height" by simp
  show ?case
  proof (cases "\<forall>y<m. \<forall>x<width. taps y x \<noteq> None")
    case True
    let ?grid = "map (pass_row width taps) [0..<m]
                 @ replicate (height - m) (replicate width Pixel_default)"
    have len: "m < length ?grid" "width \<le> length (?grid ! m)"
      using m by (simp_all add: nth_append)
    have upd: "?grid[m := v] = map (pass_row width taps) [0..<m] @ v
                 # replicate (height - Suc m) (replicate width Pixel_default)" for v
    proof -
      from m obtain d where d: "height - m = Suc d" "height - Suc m = d"
        by (cases "height - m") simp_all
      then show ?thesis by (simp add: list_update_append)
    qed
    have row: "?grid ! m = replicate width Pixel_default"
      using m by (simp add: nth_append)
    show ?thesis
      using True Suc m
      by (simp add: pass_row_aux [OF len] upd row pass_row_def less_Suc_eq)
  next
    case False
    then have "\<not> (\<forall>y<Suc m. \<forall>x<width. taps y x \<noteq> None)"
      using less_SucI by blast
    moreover have "foldl (\<lambda>st y.
              foldl (\<lambda>st x. case st of
                               None \<Rightarrow> None
                             | Some grid \<Rightarrow> (case taps y x of
                                              None \<Rightarrow> None
                                            | Some acc \<Rightarrow> Some (set2 grid y x (store_pixel acc))))
                    st [0..<width])
           (Some (replicate height (replicate width Pixel_default))) [0..<m] = None"
      using Suc False by simp
    ultimately show ?thesis
      by (simp add: pass_row_None del: not_None_eq)
  qed
qed

lemma convolve_pass_eq:
  "convolve_pass height width taps =
     (if \<forall>y<height. \<forall>x<width. taps y x \<noteq> None
      then Some (map (pass_row width taps) [0..<height]) else None)"
  unfolding convolve_pass_def by (subst convolve_pass_aux) simp_all

section \<open>Properties of the kernel\<close>














section \<open>The passes in closed form\<close>

lemma covers_iff:
  "covers grid width height \<longleftrightarrow>
     nat height \<le> length grid \<and> (\<forall>y<nat height. nat width \<le> length (grid ! y))"
  by (auto simp: covers_def list_all_length)

text \<open>
  No signed overflow: for a position inside the axis and a tap inside the kernel, the
  sums that \<open>sample_coord\<close> forms fit 32 bits whenever \<open>axisLength + kernelSize\<close> does.
\<close>

lemma sample_coord_fits_int32:
  assumes "0 \<le> pos" "pos < axisLength" "0 \<le> k" "k < kernelSize"
    and "axisLength + kernelSize \<le> 2 ^ 31"
  shows "- (2 ^ 31) \<le> pos + k \<and> pos + k < 2 ^ 31
       \<and> - (2 ^ 31) \<le> pos + k - kernelSize div 2 \<and> pos + k - kernelSize div 2 < 2 ^ 31
       \<and> - (2 ^ 31) \<le> axisLength - 1 \<and> axisLength - 1 < (2 ^ 31 :: int)"
proof -
  have "0 \<le> kernelSize div 2" "kernelSize div 2 \<le> kernelSize"
    using assms(3,4) by simp_all
  with assms show ?thesis by simp
qed

lemma sample_coord_nat_less:
  "0 < axisLength \<Longrightarrow> nat (sample_coord axisLength pos k center) < nat axisLength"
  by (simp add: sample_coord_def)

lemma at2_Some:
  "y < length grid \<Longrightarrow> 0 \<le> x \<Longrightarrow> nat x < length (grid ! y) \<Longrightarrow>
   at2 grid (int y) x = Some (grid ! y ! nat x)"
  by (simp add: at2_def nat_less_iff)

lemma horizontal_taps_eq:
  assumes "0 < width" "y < length imageData" "nat width \<le> length (imageData ! y)"
  shows "horizontal_taps kern imageData width kernelSize (kernelSize div 2) y x
           = Some (h_value kern imageData width kernelSize y x)"
proof -
  have "at2 imageData (int y) (sample_coord width (int x) (int k) (kernelSize div 2))
      = Some (imageData ! y ! nat (sample_coord width (int x) (int k) (kernelSize div 2)))" for k
  proof (rule at2_Some)
    show "y < length imageData" by (rule assms(2))
    show "0 \<le> sample_coord width (int x) (int k) (kernelSize div 2)"
      by (simp add: sample_coord_def)
    show "nat (sample_coord width (int x) (int k) (kernelSize div 2)) < length (imageData ! y)"
      using sample_coord_nat_less [OF assms(1), of "int x" "int k" "kernelSize div 2"] assms(3)
      by linarith
  qed
  then show ?thesis
    by (simp add: horizontal_taps_def convolve_taps_eq h_value_def)
qed

lemma vertical_taps_eq:
  assumes "0 < height" "nat height \<le> length temp"
    and "\<And>y'. y' < nat height \<Longrightarrow> x < length (temp ! y')"
  shows "vertical_taps kern temp height kernelSize (kernelSize div 2) y x
           = Some (v_value kern temp height kernelSize y x)"
proof -
  have "at2 temp (sample_coord height (int y) (int k) (kernelSize div 2)) (int x)
      = Some (temp ! nat (sample_coord height (int y) (int k) (kernelSize div 2)) ! x)" for k
  proof -
    let ?s = "sample_coord height (int y) (int k) (kernelSize div 2)"
    have s: "0 \<le> ?s"
      by (simp add: sample_coord_def)
    have n: "nat ?s < nat height"
      by (rule sample_coord_nat_less [OF assms(1)])
    then have "nat ?s < length temp" "x < length (temp ! nat ?s)"
      using assms(2) assms(3) [OF n] by linarith+
    with s show ?thesis by (simp add: at2_def nat_less_iff)
  qed
  then show ?thesis
    by (simp add: vertical_taps_def convolve_taps_eq v_value_def)
qed

lemma horizontal_pass_eq:
  assumes "0 < width" "covers imageData width height"
  shows "horizontal_pass kern imageData width height kernelSize (kernelSize div 2)
           = Some (blur_temp kern imageData width height kernelSize)"
proof -
  have ok: "horizontal_taps kern imageData width kernelSize (kernelSize div 2) y x
           = Some (h_value kern imageData width kernelSize y x)" if "y < nat height" for y x
    using assms that by (intro horizontal_taps_eq) (simp_all add: covers_iff)
  then have "pass_row (nat width) (horizontal_taps kern imageData width kernelSize (kernelSize div 2)) y
      = map (\<lambda>x. store_pixel (h_value kern imageData width kernelSize y x)) [0..<nat width]"
    if "y < nat height" for y
    using that by (simp add: pass_row_def)
  with ok show ?thesis
    by (simp add: horizontal_pass_def convolve_pass_eq blur_temp_def)
qed

lemma blur_temp_dims:
  "length (blur_temp kern imageData width height kernelSize) = nat height"
  "y < nat height \<Longrightarrow> length (blur_temp kern imageData width height kernelSize ! y) = nat width"
  by (simp_all add: blur_temp_def)

lemma blur_result_dims:
  "length (blur_result kern temp width height kernelSize) = nat height"
  "y < nat height \<Longrightarrow> length (blur_result kern temp width height kernelSize ! y) = nat width"
  by (simp_all add: blur_result_def)

lemma vertical_pass_eq:
  assumes "0 < height" "covers temp width height"
  shows "vertical_pass kern temp width height kernelSize (kernelSize div 2)
           = Some (blur_result kern temp width height kernelSize)"
proof -
  have ok: "vertical_taps kern temp height kernelSize (kernelSize div 2) y x
           = Some (v_value kern temp height kernelSize y x)" if "x < nat width" for y x
    using assms that by (intro vertical_taps_eq) (auto simp: covers_iff intro: less_le_trans)
  then have "pass_row (nat width) (vertical_taps kern temp height kernelSize (kernelSize div 2)) y
      = map (\<lambda>x. store_pixel (v_value kern temp height kernelSize y x)) [0..<nat width]" for y
    by (simp add: pass_row_def)
  with ok show ?thesis
    by (simp add: vertical_pass_def convolve_pass_eq blur_result_def)
qed

lemma covers_blur_temp: "covers (blur_temp kern imageData width height kernelSize) width height"
  by (simp add: covers_iff blur_temp_dims)

lemma covers_nonempty:
  "0 < width \<Longrightarrow> 0 < height \<Longrightarrow> covers grid width height \<Longrightarrow> grid \<noteq> [] \<and> hd grid \<noteq> []"
proof -
  assume a: "0 < width" "0 < height" "covers grid width height"
  then have "0 < length grid" and "nat width \<le> length (grid ! 0)"
    by (auto simp: covers_iff)
  then show ?thesis using a(1) by (cases grid) auto
qed

lemma applyGaussianBlur_eq:
  assumes "3 \<le> kernelSize" "odd kernelSize" "0 < width" "0 < height"
    and "covers imageData width height"
  shows "applyGaussianBlur imageData width height kernelSize sigma
       = Inr (blur_result (generate_kernel kernelSize sigma)
                (blur_temp (generate_kernel kernelSize sigma) imageData width height kernelSize)
                width height kernelSize)"
  using assms covers_nonempty [OF assms(3,4,5)]
  by (simp add: applyGaussianBlur_def Let_def horizontal_pass_eq vertical_pass_eq covers_blur_temp
      odd_iff_mod_2_eq_one)

lemma horizontal_pass_None:
  assumes "3 \<le> kernelSize" "0 < width" "\<not> covers imageData width height"
  shows "horizontal_pass kern imageData width height kernelSize (kernelSize div 2) = None"
proof -
  have "\<exists>y<nat height. \<exists>x<nat width.
          horizontal_taps kern imageData width kernelSize (kernelSize div 2) y x = None"
  proof (cases "nat height \<le> length imageData")
    case False
    then have y: "length imageData < nat height" by simp
    have "at2 imageData (int (length imageData)) i = None" for i
      by (simp add: at2_def)
    moreover have "(0::nat) < nat kernelSize"
      using assms(1) by simp
    ultimately have "\<not> (\<forall>k<nat kernelSize.
        at2 imageData (int (length imageData)) (sample_coord width (int 0) (int k) (kernelSize div 2)) \<noteq> None)"
      by blast
    then have "horizontal_taps kern imageData width kernelSize (kernelSize div 2) (length imageData) 0 = None"
      unfolding horizontal_taps_def convolve_taps_eq by (simp only: if_False)
    with y assms(2) show ?thesis
      by (metis zero_less_nat_eq)
  next
    case True
    with assms(3) obtain y where y: "y < nat height" "length (imageData ! y) < nat width"
      by (auto simp: covers_iff not_le)
    let ?x = "length (imageData ! y)"
    let ?c = "nat (kernelSize div 2)"
    have c: "?c < nat kernelSize"
      using assms(1) by (simp add: nat_less_iff)
    have "sample_coord width (int ?x) (int ?c) (kernelSize div 2) = int ?x"
      using y(2) assms(1) by (simp add: sample_coord_def)
    then have "at2 imageData (int y) (sample_coord width (int ?x) (int ?c) (kernelSize div 2)) = None"
      by (simp add: at2_def)
    with c have "\<not> (\<forall>k<nat kernelSize.
        at2 imageData (int y) (sample_coord width (int ?x) (int k) (kernelSize div 2)) \<noteq> None)"
      by blast
    then have "horizontal_taps kern imageData width kernelSize (kernelSize div 2) y ?x = None"
      unfolding horizontal_taps_def convolve_taps_eq by (simp only: if_False)
    with y show ?thesis by blast
  qed
  then have "\<not> (\<forall>y<nat height. \<forall>x<nat width.
          horizontal_taps kern imageData width kernelSize (kernelSize div 2) y x \<noteq> None)"
    by blast
  then show ?thesis
    unfolding horizontal_pass_def convolve_pass_eq by (simp only: if_False)
qed

text \<open>
  With a valid kernel size and positive dimensions, a read outside the grid happens
  exactly when the grid is not empty in the sense of the third check and does not
  hold the region of \<open>height\<close> rows and \<open>width\<close> columns.
\<close>

lemma applyGaussianBlur_OutOfRange_iff:
  assumes "3 \<le> kernelSize" "odd kernelSize" "0 < width" "0 < height"
  shows "applyGaussianBlur imageData width height kernelSize sigma = Inl OutOfRange
     \<longleftrightarrow> imageData \<noteq> [] \<and> hd imageData \<noteq> [] \<and> \<not> covers imageData width height"
proof (cases "covers imageData width height")
  case True
  then show ?thesis
    using applyGaussianBlur_eq [OF assms True, of sigma] by simp
next
  case False
  then show ?thesis
    using assms horizontal_pass_None [OF assms(1,3) False]
    by (simp add: applyGaussianBlur_def Let_def odd_iff_mod_2_eq_one)
qed

section \<open>Clamping and storing\<close>




lemma clamped_fits:
  "0 \<le> \<lfloor>max 0 (min 255 (v::real))\<rfloor> \<and> \<lfloor>max 0 (min 255 v)\<rfloor> \<le> 255"
proof -
  have "0 \<le> max 0 (min 255 v)" "max 0 (min 255 v) \<le> 255" by simp_all
  then show ?thesis by (simp add: floor_le_iff le_floor_iff del: max.bounded_iff min.bounded_iff)
qed

lemma uint_clamp_channel: "uint (clamp_channel v) = \<lfloor>max 0 (min 255 v)\<rfloor>"
proof -
  have "0 \<le> max 0 (min 255 v)" by simp
  then have "clamp_channel v = word_of_int \<lfloor>max 0 (min 255 v)\<rfloor>"
    unfolding clamp_channel_def static_cast_uint8_def by (simp only: if_True)
  moreover have "\<lfloor>max 0 (min 255 v)\<rfloor> < 2 ^ LENGTH(8)"
    using clamped_fits [of v] by simp
  ultimately show ?thesis
    using clamped_fits [of v] by (simp add: uint_word_of_int take_bit_int_eq_self)
qed

lemma unat_le_255: "unat (w :: uint8_t) \<le> 255"
  using unsigned_less [of w, where 'a = nat] by simp


lemma channel_real_bounds: "0 \<le> real (unat (w::uint8_t)) \<and> real (unat w) \<le> 255"
  using unat_le_255 [of w] by (simp del: of_nat_unat)


text \<open>
  What the truncation does to a sum that is not exact: a channel value with an error of
  less than 1 in either direction is stored as that value or as one less.
\<close>

lemma clamp_channel_perturbed:
  assumes "\<bar>d\<bar> < 1"
  shows "uint (clamp_channel (real (unat (w::uint8_t)) + d)) = uint w
       \<or> uint (clamp_channel (real (unat w) + d)) = uint w - 1"
proof -
  let ?v = "real (unat w) + d"
  have w: "0 \<le> real (unat w)" "real (unat w) \<le> 255" "real_of_int (uint w) = real (unat w)"
    using channel_real_bounds [of w] by simp_all
  have "\<lfloor>max 0 (min 255 ?v)\<rfloor> = uint w \<or> \<lfloor>max 0 (min 255 ?v)\<rfloor> = uint w - 1"
  proof (cases "0 \<le> d")
    case True
    then have "real_of_int (uint w) \<le> max 0 (min 255 ?v)" "max 0 (min 255 ?v) < real_of_int (uint w) + 1"
      using assms w by (simp_all add: min_def max_def del: of_nat_unat)
    then have "\<lfloor>max 0 (min 255 ?v)\<rfloor> = uint w"
      by (intro floor_unique) simp_all
    then show ?thesis ..
  next
    case False
    show ?thesis
    proof (cases "uint w = 0")
      case True
      then have "real (unat w) = 0" using w(3) by simp
      then have "max 0 (min 255 ?v) = 0"
        using False by (simp add: min_def max_def del: of_nat_unat)
      then show ?thesis using True by simp
    next
      case nz: False
      then have "1 \<le> uint w" using uint_ge_0 [of w] by linarith
      then have "1 \<le> real (unat w)" using w(3) by linarith
      then have "real_of_int (uint w - 1) \<le> max 0 (min 255 ?v)"
        "max 0 (min 255 ?v) < real_of_int (uint w - 1) + 1"
        using False assms w by (simp_all add: min_def max_def del: of_nat_unat)
      then have "\<lfloor>max 0 (min 255 ?v)\<rfloor> = uint w - 1"
        by (intro floor_unique) simp_all
      then show ?thesis ..
    qed
  qed
  then show ?thesis by (simp only: uint_clamp_channel)
qed

section \<open>Dimensions\<close>

lemma convolve_pass_dims:
  assumes "convolve_pass height width taps = Some grid"
  shows "length grid = height \<and> (\<forall>row \<in> set grid. length row = width)"
proof -
  from assms have "grid = map (pass_row width taps) [0..<height]"
    by (simp add: convolve_pass_eq split: if_splits)
  then show ?thesis by (auto simp: pass_row_def)
qed

lemma applyGaussianBlur_dims:
  assumes "applyGaussianBlur imageData width height kernelSize sigma = Inr result"
  shows "length result = nat height \<and> (\<forall>row \<in> set result. length row = nat width)"
proof -
  from assms obtain kern temp c where
    "vertical_pass kern temp width height kernelSize c = Some result"
    by (auto simp: applyGaussianBlur_def Let_def split: if_splits option.splits)
  then show ?thesis
    unfolding vertical_pass_def by (rule convolve_pass_dims)
qed

lemma valid_input_covers:
  "valid_input imageData width height kernelSize sigma \<Longrightarrow> covers imageData width height"
  by (simp add: valid_input_def covers_iff)

text \<open>
  Claim C7. Whenever the call returns a grid, the grid has \<open>height\<close> rows of \<open>width\<close>
  entries each; for a valid input the call does return a grid, and its rows are as many
  and as long as those of the input.
\<close>

theorem dimensions_preserved:
  "(\<forall>result. applyGaussianBlur imageData width height kernelSize sigma = Inr result \<longrightarrow>
      length result = nat height \<and> (\<forall>row \<in> set result. length row = nat width))
   \<and> (valid_input imageData width height kernelSize sigma \<longrightarrow>
      (\<exists>result. applyGaussianBlur imageData width height kernelSize sigma = Inr result
         \<and> length result = length imageData
         \<and> (\<forall>y < length result. length (result ! y) = length (imageData ! y))))"
proof -
  have "length result = nat height \<and> (\<forall>row \<in> set result. length row = nat width)"
    if "applyGaussianBlur imageData width height kernelSize sigma = Inr result" for result
    using that by (rule applyGaussianBlur_dims)
  moreover have "\<exists>result. applyGaussianBlur imageData width height kernelSize sigma = Inr result
         \<and> length result = length imageData
         \<and> (\<forall>y < length result. length (result ! y) = length (imageData ! y))"
    if v: "valid_input imageData width height kernelSize sigma"
  proof -
    let ?res = "blur_result (generate_kernel kernelSize sigma)
                  (blur_temp (generate_kernel kernelSize sigma) imageData width height kernelSize)
                  width height kernelSize"
    have "applyGaussianBlur imageData width height kernelSize sigma = Inr ?res"
      using v valid_input_covers [OF v]
      by (intro applyGaussianBlur_eq) (simp_all add: valid_input_def)
    moreover have "length ?res = length imageData"
      using v by (simp add: blur_result_dims valid_input_def)
    moreover have "\<forall>y < length ?res. length (?res ! y) = length (imageData ! y)"
      using v by (simp add: blur_result_dims valid_input_def)
    ultimately show ?thesis by blast
  qed
  ultimately show ?thesis by blast
qed

theorem dimensions_preserved_witness:
  "valid_input black_image 2 2 3 1 \<and>
   (\<exists>result. applyGaussianBlur black_image 2 2 3 1 = Inr result
      \<and> length result = 2 \<and> (\<forall>row \<in> set result. length row = 2)
      \<and> length result = length black_image
      \<and> (\<forall>y < length result. length (result ! y) = length (black_image ! y)))"
proof -
  have v: "valid_input black_image 2 2 3 1"
    by (simp add: valid_input_def black_image_def)
  from dimensions_preserved [of black_image 2 2 3 1] v show ?thesis
    by fastforce
qed

section \<open>Sampling at the border\<close>

lemma sample_coord_clamp:
  "0 < axisLength \<Longrightarrow>
   sample_coord axisLength pos k center = clamp_to_axis axisLength (pos + k - center)"
  by (simp add: sample_coord_def clamp_to_axis_def)

text \<open>
  Claim C6. In both passes, tap \<open>k\<close> of the output position \<open>pos\<close> samples the
  coordinate \<open>pos + k - center\<close> clamped to \<open>[0, axisLength - 1]\<close>: the horizontal
  sums are taken over \<open>imageData[y][clamp (x + k - center)]\<close> and the vertical ones over
  \<open>temp[clamp (y + k - center)][x]\<close>, so a tap beyond the border reads the nearest edge
  pixel; nothing wraps around and nothing is padded with zero.
\<close>

theorem edge_replicate_sampling:
  assumes "0 < width" "0 < height"
    and "covers imageData width height" "covers temp width height"
    and "y < nat height" "x < nat width"
  shows "sample_coord width (int x) (int k) center = clamp_to_axis width (int x + int k - center)
       \<and> sample_coord height (int y) (int k) center = clamp_to_axis height (int y + int k - center)
       \<and> 0 \<le> clamp_to_axis width (int x + int k - center)
       \<and> clamp_to_axis width (int x + int k - center) \<le> width - 1
       \<and> 0 \<le> clamp_to_axis height (int y + int k - center)
       \<and> clamp_to_axis height (int y + int k - center) \<le> height - 1
       \<and> horizontal_taps kern imageData width kernelSize (kernelSize div 2) y x
           = Some (tap_sum kern (nat kernelSize)
               (\<lambda>k. imageData ! y ! nat (clamp_to_axis width (int x + int k - kernelSize div 2))))
       \<and> vertical_taps kern temp height kernelSize (kernelSize div 2) y x
           = Some (tap_sum kern (nat kernelSize)
               (\<lambda>k. temp ! nat (clamp_to_axis height (int y + int k - kernelSize div 2)) ! x))"
proof -
  have "horizontal_taps kern imageData width kernelSize (kernelSize div 2) y x
           = Some (h_value kern imageData width kernelSize y x)"
    using assms by (intro horizontal_taps_eq) (simp_all add: covers_iff)
  moreover have "vertical_taps kern temp height kernelSize (kernelSize div 2) y x
           = Some (v_value kern temp height kernelSize y x)"
    using assms by (intro vertical_taps_eq) (auto simp: covers_iff intro: less_le_trans)
  moreover have "0 \<le> clamp_to_axis n i \<and> clamp_to_axis n i \<le> n - 1" if "0 < n" for n i
    using that by (simp add: clamp_to_axis_def)
  ultimately show ?thesis
    using assms(1,2) by (simp add: h_value_def v_value_def sample_coord_clamp)
qed

theorem edge_replicate_sampling_witness:
  "sample_coord 2 (int 0) (int 0) 1 = 0
   \<and> sample_coord 2 (int 1) (int 2) 1 = 1
   \<and> horizontal_taps (generate_kernel 3 1) black_image 2 3 (3 div 2) 1 0
       = Some (tap_sum (generate_kernel 3 1) (nat 3) (\<lambda>k. black_image ! 1 ! nat (clamp_to_axis 2 (int 0 + int k - 3 div 2))))
   \<and> vertical_taps (generate_kernel 3 1) black_image 2 3 (3 div 2) 1 0
       = Some (tap_sum (generate_kernel 3 1) (nat 3) (\<lambda>k. black_image ! nat (clamp_to_axis 2 (int 1 + int k - 3 div 2)) ! 0))"
proof -
  have c: "covers black_image 2 2"
    by (simp add: covers_iff black_image_def less_Suc_eq numeral_2_eq_2)
  from edge_replicate_sampling [of 2 2 black_image black_image 1 0 0 1 "generate_kernel 3 1" 3, OF _ _ c c]
    edge_replicate_sampling [of 2 2 black_image black_image 1 1 2 1 "generate_kernel 3 1" 3, OF _ _ c c]
  show ?thesis by (simp add: clamp_to_axis_def)
qed

section \<open>Dimensions smaller than the grid\<close>





section \<open>Channel bounds and the intermediate buffer\<close>







section \<open>Symmetry and normalisation of the kernel\<close>











section \<open>Uniform images\<close>








section \<open>The two passes and the direct 2D convolution\<close>













section \<open>The corner example\<close>



















end
